theory Spec2Isabelle
  imports Complex_Main "HOL-Library.Multiset"
begin

section \<open>JavaScript numbers\<close>

text \<open>
  Every amount in the application is a JavaScript \<^verbatim>\<open>number\<close>, an IEEE 754 binary64
  value, and every \<^verbatim>\<open>+\<close>, \<^verbatim>\<open>*\<close> and \<^verbatim>\<open>/\<close> returns the binary64 value nearest to the
  exact result, ties going to the even significand. A finite number is modelled by the
  rational it denotes, and each operation rounds its exact result with \<open>fl\<close> to 53
  significant bits. The exponent is not bounded: overflow to \<^verbatim>\<open>Infinity\<close>, subnormal
  results, \<^verbatim>\<open>NaN\<close> and the sign of zero are outside the model (amounts are read from
  numeric columns of the database, far from both ends of the range).
\<close>

type_synonym number = rat

function bitlen :: "int \<Rightarrow> int" where
  "bitlen n = (if n \<le> 0 then 0 else 1 + bitlen (n div 2))"
  by pat_completeness auto
termination
  by (relation "measure nat") auto

declare bitlen.simps [simp del]

definition pow2 :: "int \<Rightarrow> rat" where
  "pow2 k = (if 0 \<le> k then 2 ^ nat k else 1 / 2 ^ nat (- k))"

text \<open>\<open>ilog2 x\<close> is the exponent of a positive \<open>x\<close>: \<open>2 ^ ilog2 x \<le> x < 2 ^ (ilog2 x + 1)\<close>.\<close>

definition ilog2 :: "rat \<Rightarrow> int" where
  "ilog2 x = (case quotient_of x of (p, q) \<Rightarrow>
     (let k = bitlen p - bitlen q
      in if pow2 k \<le> x then k else k - 1))"

definition round_half_even :: "rat \<Rightarrow> int" where
  "round_half_even r = (let f = \<lfloor>r\<rfloor>; d = r - of_int f
     in if d < 1 / 2 then f else if 1 / 2 < d then f + 1
        else if even f then f else f + 1)"

text \<open>Rounding to binary64: the unit in the last place of \<open>x\<close> is \<open>2 ^ (ilog2 \<bar>x\<bar> - 52)\<close>.\<close>

definition fl :: "rat \<Rightarrow> number" where
  "fl x = (if x = 0 then 0
     else (let u = pow2 (ilog2 \<bar>x\<bar> - 52) in of_int (round_half_even (x / u)) * u))"

text \<open>The number a decimal literal denotes (\<^verbatim>\<open>0.1\<close> in a JSON row or a form field).\<close>

definition dec :: "rat \<Rightarrow> number" where
  "dec r = fl r"

definition num_add :: "number \<Rightarrow> number \<Rightarrow> number" where
  "num_add x y = fl (x + y)"

definition num_mul :: "number \<Rightarrow> number \<Rightarrow> number" where
  "num_mul x y = fl (x * y)"

definition num_div :: "number \<Rightarrow> number \<Rightarrow> number" where
  "num_div x y = fl (x / y)"

section \<open>Calendar dates\<close>

text \<open>
  The database delivers a \<^verbatim>\<open>date\<close> column as the text \<^verbatim>\<open>YYYY-MM-DD\<close>; the record below is
  that calendar date. \<open>month\<close> also stands for the three-letter name that the format
  pattern \<^verbatim>\<open>MMM\<close> prints.
\<close>

datatype month = Jan | Feb | Mar | Apr | May | Jun | Jul | Aug | Sep | Oct | Nov | Dec

fun month_index :: "month \<Rightarrow> nat" where
  "month_index Jan = 0" | "month_index Feb = 1" | "month_index Mar = 2"
| "month_index Apr = 3" | "month_index May = 4" | "month_index Jun = 5"
| "month_index Jul = 6" | "month_index Aug = 7" | "month_index Sep = 8"
| "month_index Oct = 9" | "month_index Nov = 10" | "month_index Dec = 11"

record date =
  fullYear :: nat
  monthOfYear :: month
  dayOfMonth :: nat

section \<open>Payments and the ledger totals (Dashboard.tsx, ClientDetail.tsx)\<close>

text \<open>
  \<open>PaymentData\<close> holds the columns the dashboard reads and computes with
  (\<^verbatim>\<open>created_at\<close> is selected but never used). The client page reads whole \<open>Payment\<close>
  rows, which extend it.
\<close>

record PaymentData =
  amount :: number
  status :: string
  paid_date :: "date option"

record Payment = PaymentData +
  id :: string
  description :: "string option"
  due_date :: "string option"
  invoice_document_id :: "string option"

text \<open>
  \<^verbatim>\<open>payments.filter((p) => p.status === "paid").reduce((sum, p) => sum + Number(p.amount), 0)\<close>
  in \<^verbatim>\<open>loadStats\<close>, and the same expression over the client's payments in
  \<^verbatim>\<open>ClientDetail\<close>.
\<close>

definition totalPaid :: "'a PaymentData_scheme list \<Rightarrow> number" where
  "totalPaid payments =
     foldl (\<lambda>sum p. num_add sum (amount p)) 0
       (filter (\<lambda>p. status p = ''paid'') payments)"

definition totalPending :: "'a PaymentData_scheme list \<Rightarrow> number" where
  "totalPending payments =
     foldl (\<lambda>sum p. num_add sum (amount p)) 0
       (filter (\<lambda>p. status p = ''pending'' \<or> status p = ''overdue'') payments)"

text \<open>The sum of a sequence of numbers as JavaScript computes it, left to right from 0.\<close>

definition js_sum :: "number list \<Rightarrow> number" where
  "js_sum xs = foldl num_add 0 xs"

section \<open>The dashboard's chart data (Dashboard.tsx, processChartData)\<close>

text \<open>
  A JavaScript \<^verbatim>\<open>Map\<close> keeps its entries in the order in which their keys were first
  set: \<^verbatim>\<open>set\<close> on a key already present replaces the value in place, on a new key it adds
  the entry at the end. It is an association list with distinct keys.
\<close>

definition map_get :: "('k \<times> 'v) list \<Rightarrow> 'k \<Rightarrow> 'v option" where
  "map_get m k = map_of m k"

fun map_set :: "'k \<Rightarrow> 'v \<Rightarrow> ('k \<times> 'v) list \<Rightarrow> ('k \<times> 'v) list" where
  "map_set k v [] = [(k, v)]"
| "map_set k v ((k', v') # m) = (if k' = k then (k, v) # m else (k', v') # map_set k v m)"

text \<open>
  The keys are formatted dates. \<^verbatim>\<open>format(startOfMonth(parseISO(d)), "MMM yyyy")\<close> prints the
  month's name and the year, \<^verbatim>\<open>format(parseISO(d), "MMM dd")\<close> the month's name and the
  day of the month; a label is modelled by the pair of values it prints, in the order it
  prints them. \<^verbatim>\<open>parseISO\<close> reads \<^verbatim>\<open>YYYY-MM-DD\<close> as that calendar day in local time, and
  \<^verbatim>\<open>format\<close> prints local time, so the time zone does not enter.
\<close>

type_synonym month_label = "month \<times> nat"
type_synonym day_label = "month \<times> nat"

definition monthKey :: "date \<Rightarrow> month_label" where
  "monthKey d = (monthOfYear d, fullYear d)"

definition dateKey :: "date \<Rightarrow> day_label" where
  "dateKey d = (monthOfYear d, dayOfMonth d)"

text \<open>
  \<^verbatim>\<open>new Date(a.month).getTime()\<close> reads a label such as \<^verbatim>\<open>Mar 2024\<close> back as the first day
  of that month. The comparator only uses the sign of a difference of two such times, so
  the time is counted in months.
\<close>

definition getTime :: "month_label \<Rightarrow> int" where
  "getTime l = (case l of (m, y) \<Rightarrow> 12 * int y + int (month_index m))"

record status_totals =
  paid :: number
  pending :: number
  overdue :: number

record chart_state =
  monthlyMap :: "(month_label \<times> (number \<times> nat)) list"
  timelineMap :: "(day_label \<times> number) list"
  statusCount :: status_totals

definition initial_state :: chart_state where
  "initial_state =
     \<lparr>monthlyMap = [], timelineMap = [],
      statusCount = \<lparr>paid = 0, pending = 0, overdue = 0\<rparr>\<rparr>"

text \<open>The body of \<^verbatim>\<open>payments.forEach\<close>; an entry of \<open>monthlyMap\<close> is (revenue, count).\<close>

definition process_payment :: "chart_state \<Rightarrow> 'a PaymentData_scheme \<Rightarrow> chart_state" where
  "process_payment s payment =
     (let amt = amount payment;
          sc = statusCount s;
          s1 = s\<lparr>statusCount :=
                 (if status payment = ''paid'' then sc\<lparr>paid := num_add (paid sc) amt\<rparr>
                  else if status payment = ''pending''
                    then sc\<lparr>pending := num_add (pending sc) amt\<rparr>
                  else if status payment = ''overdue''
                    then sc\<lparr>overdue := num_add (overdue sc) amt\<rparr>
                  else sc)\<rparr>
      in case paid_date payment of
           None \<Rightarrow> s1
         | Some d \<Rightarrow>
             if status payment = ''paid'' then
               (let existing = (case map_get (monthlyMap s1) (monthKey d) of
                                  None \<Rightarrow> (0, 0) | Some e \<Rightarrow> e);
                    shown = (case map_get (timelineMap s1) (dateKey d) of
                               None \<Rightarrow> 0 | Some r \<Rightarrow> r)
                in s1\<lparr>monthlyMap :=
                        map_set (monthKey d) (num_add (fst existing) amt, snd existing + 1)
                          (monthlyMap s1),
                      timelineMap :=
                        map_set (dateKey d) (num_add shown amt) (timelineMap s1)\<rparr>)
             else s1)"

text \<open>\<^verbatim>\<open>xs.slice(-n)\<close>: the last \<open>n\<close> elements, all of them when there are fewer.\<close>

definition slice_last :: "nat \<Rightarrow> 'a list \<Rightarrow> 'a list" where
  "slice_last n xs = drop (length xs - n) xs"

text \<open>
  The three series. A row of \<open>monthly\<close> is (month, revenue, payments), a row of
  \<open>timeline\<close> is (date, revenue), a row of \<open>statusDistribution\<close> is (name, value, color).
  \<^verbatim>\<open>Array.prototype.sort\<close> is stable and puts the rows in ascending order of the
  comparator, as the insertion sort \<open>sort_key\<close> does.
\<close>

record chartData =
  monthly :: "(month_label \<times> number \<times> nat) list"
  timeline :: "(day_label \<times> number) list"
  statusDistribution :: "(string \<times> number \<times> string) list"

definition processChartData :: "'a PaymentData_scheme list \<Rightarrow> chartData" where
  "processChartData payments =
     (let s = foldl process_payment initial_state payments;
          sc = statusCount s
      in \<lparr>monthly =
            slice_last 6
              (sort_key (\<lambda>row. getTime (fst row))
                 (map (\<lambda>(month, data). (month, fst data, snd data)) (monthlyMap s))),
          timeline = slice_last 30 (map (\<lambda>(date, revenue). (date, revenue)) (timelineMap s)),
          statusDistribution =
            filter (\<lambda>item. 0 < fst (snd item))
              [(''Paid'', paid sc, ''hsl(var(--success))''),
               (''Pending'', pending sc, ''hsl(var(--warning))''),
               (''Overdue'', overdue sc, ''hsl(var(--destructive))'')]\<rparr>)"

text \<open>
  What the claims about the series speak of: the payments that enter the two time series,
  their labels, and the order in which labels are first met.
\<close>

definition paid_with_date :: "'a PaymentData_scheme \<Rightarrow> bool" where
  "paid_with_date p = (status p = ''paid'' \<and> paid_date p \<noteq> None)"

definition month_of :: "'a PaymentData_scheme \<Rightarrow> month_label" where
  "month_of p = monthKey (the (paid_date p))"

definition day_of :: "'a PaymentData_scheme \<Rightarrow> day_label" where
  "day_of p = dateKey (the (paid_date p))"

fun first_seen :: "'a list \<Rightarrow> 'a list" where
  "first_seen [] = []"
| "first_seen (x # xs) = x # removeAll x (first_seen xs)"

text \<open>
  A \<^verbatim>\<open>Map\<close> filled by a loop that reads an entry, or the default \<open>z\<close>, and writes it back
  combined with the next value.
\<close>

definition accumulate ::
  "('v \<Rightarrow> 'x \<Rightarrow> 'v) \<Rightarrow> 'v \<Rightarrow> ('k \<times> 'v) list \<Rightarrow> ('k \<times> 'x) list \<Rightarrow> ('k \<times> 'v) list" where
  "accumulate g z m kxs =
     foldl (\<lambda>m kx. map_set (fst kx)
              (g (case map_get m (fst kx) of None \<Rightarrow> z | Some v \<Rightarrow> v) (snd kx)) m) m kxs"

section \<open>Invoice line items and totals (Invoices.tsx)\<close>

record InvoiceItem =
  item_description :: string
  quantity :: number
  unit_price :: number
  item_amount :: number

definition calculateItemAmount :: "number \<Rightarrow> number \<Rightarrow> number" where
  "calculateItemAmount qty unitPrice = num_mul qty unitPrice"

text \<open>
  \<open>tax_rate\<close> is the number \<^verbatim>\<open>parseFloat\<close> reads from the form's text field.
\<close>

record totals =
  subtotal :: number
  taxAmount :: number
  total :: number

definition calculateTotals :: "InvoiceItem list \<Rightarrow> number \<Rightarrow> totals" where
  "calculateTotals items tax_rate =
     (let subtotal = foldl (\<lambda>sum item. num_add sum (item_amount item)) 0 items;
          taxRate = num_div tax_rate 100;
          taxAmount = num_mul subtotal taxRate;
          total = num_add subtotal taxAmount
      in \<lparr>subtotal = subtotal, taxAmount = taxAmount, total = total\<rparr>)"

text \<open>
  The form calls \<^verbatim>\<open>handleItemChange(index, field, value)\<close> with the index of a row it
  shows and with one of three fields: the description with the text typed, the quantity
  or the unit price with a number. An index beyond the rows is never passed; the model
  leaves the items as they are there.
\<close>

datatype item_change = SetDescription string | SetQuantity number | SetUnitPrice number

fun set_field :: "item_change \<Rightarrow> InvoiceItem \<Rightarrow> InvoiceItem" where
  "set_field (SetDescription v) item = item\<lparr>item_description := v\<rparr>"
| "set_field (SetQuantity v) item = item\<lparr>quantity := v\<rparr>"
| "set_field (SetUnitPrice v) item = item\<lparr>unit_price := v\<rparr>"

fun recomputes :: "item_change \<Rightarrow> bool" where
  "recomputes (SetDescription v) = False"
| "recomputes (SetQuantity v) = True"
| "recomputes (SetUnitPrice v) = True"

definition handleItemChange :: "nat \<Rightarrow> item_change \<Rightarrow> InvoiceItem list \<Rightarrow> InvoiceItem list" where
  "handleItemChange index change items =
     (if index < length items then
        (let item = set_field change (items ! index);
             item' = (if recomputes change
                      then item\<lparr>item_amount :=
                             calculateItemAmount (quantity item) (unit_price item)\<rparr>
                      else item)
         in items[index := item'])
      else items)"

text \<open>
  Modelled from the spec: the rounding of section 4.1, to cents, a tie going to the even
  cent. The code has no such function.
\<close>

definition round_cents :: "rat \<Rightarrow> rat" where
  "round_cents x = of_int (round_half_even (x * 100)) / 100"

section \<open>Saving a payment (ClientDetail.tsx, handleAddPayment)\<close>

record paymentForm =
  form_amount :: string
  form_status :: string
  form_description :: string
  form_due_date :: string
  form_invoice_document_id :: string

datatype failure = AmountRequired | NoUser | SaveFailed

text \<open>
  The invoice file chosen in the dialog, with the outcome of storing it: nothing chosen,
  the upload or the insert of its document row failed, or the id of the new document row.
\<close>

datatype upload = NoFile | UploadFailed | Uploaded string

text \<open>\<^verbatim>\<open>x || null\<close> on a string.\<close>

definition or_null :: "string \<Rightarrow> string option" where
  "or_null x = (if x = [] then None else Some x)"

text \<open>
  The object literal that both \<^verbatim>\<open>update\<close> and \<^verbatim>\<open>insert\<close> write. \<open>today\<close> is
  \<^verbatim>\<open>new Date().toISOString().split("T")[0]\<close>, the calendar date of the moment of the call
  (in UTC); \<open>parseFloat\<close> is the library function.
\<close>

definition written_values ::
  "(string \<Rightarrow> number) \<Rightarrow> date \<Rightarrow> paymentForm \<Rightarrow> string \<Rightarrow> Payment \<Rightarrow> Payment" where
  "written_values parseFloat today form invoiceDocId row =
     row\<lparr>amount := parseFloat (form_amount form),
         status := form_status form,
         description := or_null (form_description form),
         due_date := or_null (form_due_date form),
         paid_date := (if form_status form = ''paid'' then Some today else None),
         invoice_document_id := or_null invoiceDocId\<rparr>"

text \<open>
  The payments table enforces \<^verbatim>\<open>status in ('paid', 'pending', 'overdue')\<close>; a write that
  breaks it returns an error, which the handler throws.
\<close>

definition status_check :: "string \<Rightarrow> bool" where
  "status_check s = (s = ''paid'' \<or> s = ''pending'' \<or> s = ''overdue'')"

text \<open>
  \<open>payments\<close> is the table before the call and the result is the table after it.
  \<open>client_id\<close> is the route parameter \<^verbatim>\<open>id\<close>, \<open>user\<close> the signed-in user, \<open>new_id\<close> the key
  the database gives an inserted row, \<open>editingPayment\<close> the payment being edited, if any.
\<close>

definition handleAddPayment ::
  "(string \<Rightarrow> number) \<Rightarrow> date \<Rightarrow> string \<Rightarrow> string option \<Rightarrow> string option \<Rightarrow> upload \<Rightarrow>
   Payment option \<Rightarrow> paymentForm \<Rightarrow> Payment list \<Rightarrow> failure + Payment list" where
  "handleAddPayment parseFloat today new_id client_id user invoiceFile editingPayment form payments =
     (if form_amount form = [] \<or> client_id = None \<or> client_id = Some [] then Inl AmountRequired
      else if user = None then Inl NoUser
      else if invoiceFile = UploadFailed then Inl SaveFailed
      else
        (let invoiceDocId = (case invoiceFile of Uploaded doc \<Rightarrow> doc
                             | _ \<Rightarrow> form_invoice_document_id form);
             write = written_values parseFloat today form invoiceDocId
         in if \<not> status_check (form_status form) then Inl SaveFailed
            else case editingPayment of
                   Some e \<Rightarrow> Inr (map (\<lambda>row. if id row = id e then write row else row) payments)
                 | None \<Rightarrow>
                     Inr (payments @
                       [write \<lparr>amount = 0, status = [], paid_date = None, id = new_id,
                               description = None, due_date = None,
                               invoice_document_id = None\<rparr>])))"

section \<open>Expense totals (Expenses page)\<close>

text \<open>The columns of an expense that the totals read.\<close>

record Expense =
  expense_amount :: number
  expense_date :: date

fun leap_year :: "nat \<Rightarrow> bool" where
  "leap_year y = (y mod 4 = 0 \<and> (y mod 100 \<noteq> 0 \<or> y mod 400 = 0))"

fun prev_month :: "month \<Rightarrow> month" where
  "prev_month Jan = Dec" | "prev_month Feb = Jan" | "prev_month Mar = Feb"
| "prev_month Apr = Mar" | "prev_month May = Apr" | "prev_month Jun = May"
| "prev_month Jul = Jun" | "prev_month Aug = Jul" | "prev_month Sep = Aug"
| "prev_month Oct = Sep" | "prev_month Nov = Oct" | "prev_month Dec = Nov"

fun days_in_month :: "nat \<Rightarrow> month \<Rightarrow> nat" where
  "days_in_month y Feb = (if leap_year y then 29 else 28)"
| "days_in_month y Apr = 30" | "days_in_month y Jun = 30"
| "days_in_month y Sep = 30" | "days_in_month y Nov = 30"
| "days_in_month y m = 31"

definition prev_day :: "date \<Rightarrow> date" where
  "prev_day d =
     (if 1 < dayOfMonth d then d\<lparr>dayOfMonth := dayOfMonth d - 1\<rparr>
      else if monthOfYear d = Jan
        then \<lparr>fullYear = fullYear d - 1, monthOfYear = Dec, dayOfMonth = 31\<rparr>
      else \<lparr>fullYear = fullYear d, monthOfYear = prev_month (monthOfYear d),
            dayOfMonth = days_in_month (fullYear d) (prev_month (monthOfYear d))\<rparr>)"

text \<open>
  \<^verbatim>\<open>new Date("YYYY-MM-DD")\<close> is midnight of that day in UTC, and \<^verbatim>\<open>getMonth\<close> and
  \<^verbatim>\<open>getFullYear\<close> read the date in the browser's time zone. \<open>tz\<close> is the zone's offset
  from UTC in minutes, positive to the east (between -720 and 840): west of UTC the
  local day of that moment is the day before.
\<close>

definition new_Date :: "int \<Rightarrow> date \<Rightarrow> date" where
  "new_Date tz d = (if tz < 0 then prev_day d else d)"

definition totalExpenses :: "Expense list \<Rightarrow> number" where
  "totalExpenses expenses = foldl (\<lambda>sum expense. num_add sum (expense_amount expense)) 0 expenses"

text \<open>\<open>now\<close> is \<^verbatim>\<open>new Date()\<close>, read in the browser's time zone.\<close>

definition monthlyExpenses :: "int \<Rightarrow> date \<Rightarrow> Expense list \<Rightarrow> number" where
  "monthlyExpenses tz now expenses =
     (let currentMonth = month_index (monthOfYear now);
          currentYear = fullYear now
      in foldl (\<lambda>sum expense. num_add sum (expense_amount expense)) 0
           (filter (\<lambda>expense.
              (let expenseDate = new_Date tz (expense_date expense)
               in month_index (monthOfYear expenseDate) = currentMonth \<and>
                  fullYear expenseDate = currentYear)) expenses))"

section \<open>Facts about numbers\<close>

lemma js_sum_Nil: "js_sum [] = 0"
  by (simp add: js_sum_def)

lemma foldl_num_add_map:
  "foldl (\<lambda>sum p. num_add sum (f p)) z ps = foldl num_add z (map f ps)"
  by (induction ps arbitrary: z) simp_all

lemma reduce_eq_js_sum:
  "foldl (\<lambda>sum p. num_add sum (f p)) 0 ps = js_sum (map f ps)"
  unfolding js_sum_def by (rule foldl_num_add_map)

lemma bitlen_nonneg: "0 \<le> bitlen n"
  by (induction n rule: bitlen.induct) (subst bitlen.simps, simp)

lemma bitlen_pos: "0 < n \<Longrightarrow> 0 < bitlen n"
  using bitlen_nonneg [of "n div 2"] by (subst bitlen.simps) simp

lemma bitlen_lower: "0 < n \<Longrightarrow> 2 ^ nat (bitlen n - 1) \<le> n"
proof (induction n rule: bitlen.induct)
  case (1 n)
  show ?case
  proof (cases "n = 1")
    case True
    then show ?thesis by (simp add: bitlen.simps)
  next
    case False
    with "1.prems" have h: "0 < n div 2" by simp
    from "1.IH" "1.prems" h have ih: "2 ^ nat (bitlen (n div 2) - 1) \<le> n div 2" by simp
    have b: "bitlen n = 1 + bitlen (n div 2)" using "1.prems" by (subst bitlen.simps) simp
    have "0 < bitlen (n div 2)" using h by (rule bitlen_pos)
    then have "nat (bitlen n - 1) = Suc (nat (bitlen (n div 2) - 1))" using b by simp
    then have "(2::int) ^ nat (bitlen n - 1) = 2 * 2 ^ nat (bitlen (n div 2) - 1)" by simp
    also have "\<dots> \<le> 2 * (n div 2)" using ih by simp
    also have "\<dots> \<le> n" by simp
    finally show ?thesis .
  qed
qed

lemma bitlen_upper: "n < 2 ^ m \<Longrightarrow> bitlen n \<le> int m"
proof (induction m arbitrary: n)
  case 0
  then show ?case by (subst bitlen.simps) simp
next
  case (Suc m)
  show ?case
  proof (cases "n \<le> 0")
    case True
    then show ?thesis by (subst bitlen.simps) simp
  next
    case False
    from Suc.prems have "n div 2 < 2 ^ m" by simp
    then have "bitlen (n div 2) \<le> int m" by (rule Suc.IH)
    with False show ?thesis by (subst bitlen.simps) simp
  qed
qed

lemma bitlen_1: "bitlen 1 = 1"
  by (simp add: bitlen.simps)

lemma ilog2_of_int: "0 < n \<Longrightarrow> ilog2 (of_int n) = bitlen n - 1"
proof -
  assume n: "0 < n"
  have k: "0 \<le> bitlen n - 1" using bitlen_pos [OF n] by simp
  have "(2::int) ^ nat (bitlen n - 1) \<le> n" using n by (rule bitlen_lower)
  then have "(of_int ((2::int) ^ nat (bitlen n - 1)) :: rat) \<le> of_int n"
    by (simp only: of_int_le_iff)
  then have "pow2 (bitlen n - 1) \<le> of_int n" using k by (simp add: pow2_def)
  then show ?thesis by (simp add: ilog2_def bitlen_1 Let_def)
qed

lemma round_half_even_of_int: "round_half_even (of_int m) = m"
  by (simp add: round_half_even_def)

text \<open>A whole number below \<open>2 ^ 53\<close> is a binary64 value: rounding leaves it as it is.\<close>

lemma fl_of_int_pos:
  assumes n: "0 < n" and b: "n < 2 ^ 53"
  shows "fl (of_int n) = of_int n"
proof -
  have le: "bitlen n \<le> 53" using bitlen_upper [of n 53] b by simp
  define j where "j = nat (53 - bitlen n)"
  have u: "pow2 (ilog2 \<bar>of_int n\<bar> - 52) = 1 / 2 ^ j"
  proof -
    have "\<bar>(of_int n :: rat)\<bar> = of_int n" using n by simp
    then have "ilog2 \<bar>of_int n\<bar> - 52 = bitlen n - 53" using ilog2_of_int [OF n] by simp
    then show ?thesis using le by (auto simp: pow2_def j_def)
  qed
  have "(of_int n :: rat) / (1 / 2 ^ j) = of_int (n * 2 ^ j)" by simp
  then have "round_half_even (of_int n / (1 / 2 ^ j)) = n * 2 ^ j"
    by (simp only: round_half_even_of_int)
  then have "fl (of_int n) = of_int (n * 2 ^ j) * (1 / 2 ^ j)"
    using n u by (simp add: fl_def Let_def)
  then show ?thesis by simp
qed

text \<open>
  Two values to compare with any implementation of binary64: the number that \<^verbatim>\<open>0.1\<close>
  denotes, and \<^verbatim>\<open>0.1 + 0.2\<close>, which is \<^verbatim>\<open>0.30000000000000004\<close>.
\<close>

lemma fl_tenth: "fl (1 / 10) = 3602879701896397 / 2 ^ 55"
  by code_simp

lemma tenth_plus_fifth:
  "num_add (dec (1 / 10)) (dec (2 / 10)) = 1351079888211149 / 2 ^ 52"
  by code_simp

lemma fl_0: "fl 0 = 0"
  by (simp add: fl_def)

lemma fl_numeral: "(numeral k :: int) < 2 ^ 53 \<Longrightarrow> fl (numeral k) = numeral k"
  using fl_of_int_pos [of "numeral k"] by simp

lemma fl_1: "fl 1 = 1"
  using fl_of_int_pos [of 1] by simp

lemma fl_of_nat: "n < 2 ^ 53 \<Longrightarrow> fl (of_nat n) = of_nat n"
proof (cases "n = 0")
  case True
  then show ?thesis by (simp add: fl_0)
next
  case False
  assume "n < 2 ^ 53"
  then have "int n < 2 ^ 53" by (metis of_nat_less_iff of_nat_numeral of_nat_power)
  with False fl_of_int_pos [of "int n"] show ?thesis by simp
qed

lemma num_mul_0: "num_mul 0 x = 0"
  by (simp add: num_mul_def fl_0)

lemma num_add_0_0: "num_add 0 0 = 0"
  by (simp add: num_add_def fl_0)








section \<open>The ledger totals\<close>

lemma filter_partition_mset:
  assumes "\<forall>p\<in>set ps. P p \<noteq> Q p"
  shows "mset (filter P ps) + mset (filter Q ps) = mset ps"
  using assms by (induction ps) auto

lemma sum_list_partition:
  fixes f :: "'a \<Rightarrow> rat"
  assumes "\<forall>p\<in>set ps. P p \<noteq> Q p"
  shows "sum_list (map f (filter P ps)) + sum_list (map f (filter Q ps)) = sum_list (map f ps)"
  using assms by (induction ps) auto

lemma foldl_num_add_of_nat:
  "a + sum_list ns < 2 ^ 53 \<Longrightarrow>
   foldl num_add (of_nat a) (map of_nat ns) = of_nat (a + sum_list ns)"
proof (induction ns arbitrary: a)
  case Nil
  show ?case by simp
next
  case (Cons n ns)
  from Cons.prems have b: "a + n < 2 ^ 53" and c: "(a + n) + sum_list ns < 2 ^ 53" by simp_all
  have "num_add (of_nat a) (of_nat n) = of_nat (a + n)"
    using fl_of_nat [OF b] by (simp add: num_add_def)
  then show ?case using Cons.IH [OF c] by (simp add: add.assoc)
qed

lemma js_sum_of_nat:
  "sum_list ns < 2 ^ 53 \<Longrightarrow> js_sum (map of_nat ns) = of_nat (sum_list ns)"
  using foldl_num_add_of_nat [of 0 ns] by (simp add: js_sum_def)

lemma sum_list_filter_le:
  fixes n :: "'a \<Rightarrow> nat"
  shows "sum_list (map n (filter P ps)) \<le> sum_list (map n ps)"
  by (induction ps) auto

lemma js_sum_whole:
  assumes "\<forall>p\<in>set ps. f p = of_nat (n p)" and "sum_list (map n ps) < 2 ^ 53"
  shows "js_sum (map f (filter P ps)) = of_nat (sum_list (map n (filter P ps)))"
proof -
  have "map f (filter P ps) = map of_nat (map n (filter P ps))"
    using assms(1) by (induction ps) auto
  moreover have "sum_list (map n (filter P ps)) < 2 ^ 53"
    using sum_list_filter_le [of n P ps] assms(2) by linarith
  ultimately show ?thesis by (simp only: js_sum_of_nat)
qed

lemma sum_list_partition_nat:
  fixes n :: "'a \<Rightarrow> nat"
  assumes "\<forall>p\<in>set ps. P p \<noteq> Q p"
  shows "sum_list (map n (filter P ps)) + sum_list (map n (filter Q ps)) = sum_list (map n ps)"
  using assms by (induction ps) auto

lemma whole_totals_add_up:
  assumes st: "\<forall>p\<in>set ps. status p = ''paid'' \<or> status p = ''pending'' \<or> status p = ''overdue''"
    and whole: "\<forall>p\<in>set ps. amount p = of_nat (n p)"
    and bound: "sum_list (map n ps) < 2 ^ 53"
  shows "num_add (totalPaid ps) (totalPending ps) = js_sum (map amount ps)"
proof -
  let ?P = "\<lambda>p. status p = ''paid''"
  let ?Q = "\<lambda>p. status p = ''pending'' \<or> status p = ''overdue''"
  have split: "\<forall>p\<in>set ps. ?P p \<noteq> ?Q p" using st by auto
  have p: "totalPaid ps = of_nat (sum_list (map n (filter ?P ps)))"
    unfolding totalPaid_def reduce_eq_js_sum using whole bound by (rule js_sum_whole)
  have q: "totalPending ps = of_nat (sum_list (map n (filter ?Q ps)))"
    unfolding totalPending_def reduce_eq_js_sum using whole bound by (rule js_sum_whole)
  have a: "js_sum (map amount ps) = of_nat (sum_list (map n ps))"
    using js_sum_whole [OF whole bound, of "\<lambda>p. True"] by simp
  have "sum_list (map n (filter ?P ps)) + sum_list (map n (filter ?Q ps)) = sum_list (map n ps)"
    using split by (rule sum_list_partition_nat)
  then have "num_add (totalPaid ps) (totalPending ps) = of_nat (sum_list (map n ps))"
    using fl_of_nat [of "sum_list (map n ps)"] bound
    by (simp add: p q num_add_def flip: of_nat_add)
  with a show ?thesis by simp
qed

text \<open>
  Claim C1, as stated, has the paid total be the sum of the paid amounts and the two
  totals add up to the sum of all amounts. The totals are sums of binary64 numbers, and
  those do neither: with 0.10 paid, 0.40 pending and 0.20 paid, the paid total is
  0.1 + 0.2 = 0.30000000000000004 and not 0.3, and with the outstanding 0.4 it makes
  0.7000000000000001, while 0.1 + 0.4 + 0.2 is 0.7 in JavaScript. Nor do the two
  totals, added exactly, give the exact sum of the three amounts (the last conjunct).
\<close>

theorem ledger_totals_add_up_counterexample:
  "totalPaid
     [\<lparr>amount = dec (1 / 10), status = ''paid'',
       paid_date = Some \<lparr>fullYear = 2024, monthOfYear = Mar, dayOfMonth = 10\<rparr>\<rparr>,
      \<lparr>amount = dec (4 / 10), status = ''pending'', paid_date = None\<rparr>,
      \<lparr>amount = dec (2 / 10), status = ''paid'',
       paid_date = Some \<lparr>fullYear = 2024, monthOfYear = Mar, dayOfMonth = 11\<rparr>\<rparr>]
     \<noteq> dec (3 / 10) \<and>
   num_add
     (totalPaid
        [\<lparr>amount = dec (1 / 10), status = ''paid'',
          paid_date = Some \<lparr>fullYear = 2024, monthOfYear = Mar, dayOfMonth = 10\<rparr>\<rparr>,
         \<lparr>amount = dec (4 / 10), status = ''pending'', paid_date = None\<rparr>,
         \<lparr>amount = dec (2 / 10), status = ''paid'',
          paid_date = Some \<lparr>fullYear = 2024, monthOfYear = Mar, dayOfMonth = 11\<rparr>\<rparr>])
     (totalPending
        [\<lparr>amount = dec (1 / 10), status = ''paid'',
          paid_date = Some \<lparr>fullYear = 2024, monthOfYear = Mar, dayOfMonth = 10\<rparr>\<rparr>,
         \<lparr>amount = dec (4 / 10), status = ''pending'', paid_date = None\<rparr>,
         \<lparr>amount = dec (2 / 10), status = ''paid'',
          paid_date = Some \<lparr>fullYear = 2024, monthOfYear = Mar, dayOfMonth = 11\<rparr>\<rparr>])
     \<noteq> js_sum (map amount
         [\<lparr>amount = dec (1 / 10), status = ''paid'',
           paid_date = Some \<lparr>fullYear = 2024, monthOfYear = Mar, dayOfMonth = 10\<rparr>\<rparr>,
          \<lparr>amount = dec (4 / 10), status = ''pending'', paid_date = None\<rparr>,
          \<lparr>amount = dec (2 / 10), status = ''paid'',
           paid_date = Some \<lparr>fullYear = 2024, monthOfYear = Mar, dayOfMonth = 11\<rparr>\<rparr>]) \<and>
   js_sum (map amount
         [\<lparr>amount = dec (1 / 10), status = ''paid'',
           paid_date = Some \<lparr>fullYear = 2024, monthOfYear = Mar, dayOfMonth = 10\<rparr>\<rparr>,
          \<lparr>amount = dec (4 / 10), status = ''pending'', paid_date = None\<rparr>,
          \<lparr>amount = dec (2 / 10), status = ''paid'',
           paid_date = Some \<lparr>fullYear = 2024, monthOfYear = Mar, dayOfMonth = 11\<rparr>\<rparr>])
     = dec (7 / 10) \<and>
   totalPaid
     [\<lparr>amount = dec (1 / 10), status = ''paid'',
       paid_date = Some \<lparr>fullYear = 2024, monthOfYear = Mar, dayOfMonth = 10\<rparr>\<rparr>,
      \<lparr>amount = dec (4 / 10), status = ''pending'', paid_date = None\<rparr>,
      \<lparr>amount = dec (2 / 10), status = ''paid'',
       paid_date = Some \<lparr>fullYear = 2024, monthOfYear = Mar, dayOfMonth = 11\<rparr>\<rparr>] +
   totalPending
     [\<lparr>amount = dec (1 / 10), status = ''paid'',
       paid_date = Some \<lparr>fullYear = 2024, monthOfYear = Mar, dayOfMonth = 10\<rparr>\<rparr>,
      \<lparr>amount = dec (4 / 10), status = ''pending'', paid_date = None\<rparr>,
      \<lparr>amount = dec (2 / 10), status = ''paid'',
       paid_date = Some \<lparr>fullYear = 2024, monthOfYear = Mar, dayOfMonth = 11\<rparr>\<rparr>]
     \<noteq> sum_list (map amount
         [\<lparr>amount = dec (1 / 10), status = ''paid'',
           paid_date = Some \<lparr>fullYear = 2024, monthOfYear = Mar, dayOfMonth = 10\<rparr>\<rparr>,
          \<lparr>amount = dec (4 / 10), status = ''pending'', paid_date = None\<rparr>,
          \<lparr>amount = dec (2 / 10), status = ''paid'',
           paid_date = Some \<lparr>fullYear = 2024, monthOfYear = Mar, dayOfMonth = 11\<rparr>\<rparr>])"
  by code_simp

text \<open>
  Claim C1, amended. For payments whose statuses are all paid, pending or overdue:
  the paid total is the sum, as JavaScript adds numbers from left to right, of the
  amounts of the paid payments, and the outstanding total that of the pending and
  overdue ones; every payment is in exactly one of the two groups, so the exact sums of
  the two groups add up to the exact sum of all amounts; the two totals themselves add
  up to JavaScript's sum of all amounts when the amounts are whole numbers with a sum
  below \<open>2 ^ 53\<close>, where no addition rounds; and both totals of the empty sequence are 0.
\<close>

theorem ledger_totals:
  assumes "\<forall>p\<in>set ps. status p = ''paid'' \<or> status p = ''pending'' \<or> status p = ''overdue''"
  shows "totalPaid ps = js_sum (map amount (filter (\<lambda>p. status p = ''paid'') ps)) \<and>
         totalPending ps =
           js_sum (map amount
             (filter (\<lambda>p. status p = ''pending'' \<or> status p = ''overdue'') ps)) \<and>
         mset (filter (\<lambda>p. status p = ''paid'') ps) +
           mset (filter (\<lambda>p. status p = ''pending'' \<or> status p = ''overdue'') ps) = mset ps \<and>
         sum_list (map amount (filter (\<lambda>p. status p = ''paid'') ps)) +
           sum_list (map amount
             (filter (\<lambda>p. status p = ''pending'' \<or> status p = ''overdue'') ps)) =
           sum_list (map amount ps) \<and>
         ((\<forall>p\<in>set ps. amount p = of_nat (n p)) \<and> sum_list (map n ps) < 2 ^ 53 \<longrightarrow>
            num_add (totalPaid ps) (totalPending ps) = js_sum (map amount ps)) \<and>
         totalPaid ([] :: 'a PaymentData_scheme list) = 0 \<and>
         totalPending ([] :: 'a PaymentData_scheme list) = 0"
proof -
  have split: "\<forall>p\<in>set ps. (status p = ''paid'') \<noteq> (status p = ''pending'' \<or> status p = ''overdue'')"
    using assms by auto
  have "totalPaid ps = js_sum (map amount (filter (\<lambda>p. status p = ''paid'') ps))"
    unfolding totalPaid_def by (rule reduce_eq_js_sum)
  moreover have "totalPending ps =
      js_sum (map amount (filter (\<lambda>p. status p = ''pending'' \<or> status p = ''overdue'') ps))"
    unfolding totalPending_def by (rule reduce_eq_js_sum)
  moreover note filter_partition_mset [OF split] sum_list_partition [OF split, of amount]
  moreover have "(\<forall>p\<in>set ps. amount p = of_nat (n p)) \<and> sum_list (map n ps) < 2 ^ 53 \<longrightarrow>
      num_add (totalPaid ps) (totalPending ps) = js_sum (map amount ps)"
    using whole_totals_add_up [OF assms] by blast
  moreover have "totalPaid ([] :: 'a PaymentData_scheme list) = 0"
    by (simp add: totalPaid_def)
  moreover have "totalPending ([] :: 'a PaymentData_scheme list) = 0"
    by (simp add: totalPending_def)
  ultimately show ?thesis by blast
qed

theorem ledger_totals_witness:
  "totalPaid [\<lparr>amount = 100, status = ''paid'',
                paid_date = Some \<lparr>fullYear = 2024, monthOfYear = Mar, dayOfMonth = 10\<rparr>\<rparr>,
              \<lparr>amount = 50, status = ''pending'', paid_date = None\<rparr>,
              \<lparr>amount = 25, status = ''overdue'', paid_date = None\<rparr>] = 100 \<and>
   totalPending [\<lparr>amount = 100, status = ''paid'',
                   paid_date = Some \<lparr>fullYear = 2024, monthOfYear = Mar, dayOfMonth = 10\<rparr>\<rparr>,
                 \<lparr>amount = 50, status = ''pending'', paid_date = None\<rparr>,
                 \<lparr>amount = 25, status = ''overdue'', paid_date = None\<rparr>] = 75 \<and>
   num_add
     (totalPaid [\<lparr>amount = 100, status = ''paid'',
                  paid_date = Some \<lparr>fullYear = 2024, monthOfYear = Mar, dayOfMonth = 10\<rparr>\<rparr>,
                \<lparr>amount = 50, status = ''pending'', paid_date = None\<rparr>,
                \<lparr>amount = 25, status = ''overdue'', paid_date = None\<rparr>])
     (totalPending [\<lparr>amount = 100, status = ''paid'',
                     paid_date = Some \<lparr>fullYear = 2024, monthOfYear = Mar, dayOfMonth = 10\<rparr>\<rparr>,
                   \<lparr>amount = 50, status = ''pending'', paid_date = None\<rparr>,
                   \<lparr>amount = 25, status = ''overdue'', paid_date = None\<rparr>]) = 175"
  (is "?A \<and> ?B \<and> ?C")
proof -
  have h: "\<forall>p\<in>set [\<lparr>amount = 100, status = ''paid'',
                  paid_date = Some \<lparr>fullYear = 2024, monthOfYear = Mar, dayOfMonth = 10\<rparr>\<rparr>,
                \<lparr>amount = 50, status = ''pending'', paid_date = None\<rparr>,
                \<lparr>amount = 25, status = ''overdue'', paid_date = None\<rparr>].
      status p = ''paid'' \<or> status p = ''pending'' \<or> status p = ''overdue''"
    by simp
  note t = ledger_totals [OF h, where n = "\<lambda>p. nat \<lfloor>amount p\<rfloor>"]
  from t have ?A by (auto simp add: js_sum_def num_add_def fl_numeral)
  moreover from t have ?B by (auto simp add: js_sum_def num_add_def fl_numeral)
  moreover from t have ?C by (auto simp add: js_sum_def num_add_def fl_numeral)
  ultimately show ?thesis by blast
qed

section \<open>The chart data: what the loop leaves in the maps\<close>

lemma keys_map_set:
  "map fst (map_set k v m) = (if k \<in> fst ` set m then map fst m else map fst m @ [k])"
  by (induction m) (force simp: image_iff)+

lemma map_of_map_set: "map_of (map_set k v m) = (map_of m)(k \<mapsto> v)"
  by (induction m) (auto simp: fun_eq_iff)

lemma first_seen_set [simp]: "set (first_seen xs) = set xs"
  by (induction xs) auto

lemma first_seen_distinct [simp]: "distinct (first_seen xs)"
  by (induction xs) (auto simp: distinct_removeAll)

lemma filter_first_seen_Cons:
  "filter (\<lambda>y. y \<notin> K) (first_seen (k # ks)) =
     (if k \<in> K then filter (\<lambda>y. y \<notin> K) (first_seen ks)
      else k # filter (\<lambda>y. y \<notin> insert k K) (first_seen ks))"
  by (auto simp: removeAll_filter_not_eq filter_filter conj_commute intro: filter_cong)

lemma accumulate_Nil: "accumulate g z m [] = m"
  by (simp add: accumulate_def)

lemma accumulate_Cons:
  "accumulate g z m (kx # kxs) =
     accumulate g z
       (map_set (fst kx) (g (case map_of m (fst kx) of None \<Rightarrow> z | Some v \<Rightarrow> v) (snd kx)) m) kxs"
  by (simp add: accumulate_def map_get_def)

lemma accumulate_keys:
  "map fst (accumulate g z m kxs) =
     map fst m @ filter (\<lambda>k. k \<notin> fst ` set m) (first_seen (map fst kxs))"
proof (induction kxs arbitrary: m)
  case Nil
  show ?case by (simp add: accumulate_Nil)
next
  case (Cons kx kxs)
  let ?m' = "map_set (fst kx) (g (case map_of m (fst kx) of None \<Rightarrow> z | Some v \<Rightarrow> v) (snd kx)) m"
  have keys: "fst ` set ?m' = insert (fst kx) (fst ` set m)"
    using keys_map_set [of "fst kx" _ m, THEN arg_cong, of set]
    by (auto simp: image_iff split: if_splits)
  have "map fst (accumulate g z m (kx # kxs)) =
      map fst ?m' @ filter (\<lambda>k. k \<notin> fst ` set ?m') (first_seen (map fst kxs))"
    by (simp only: accumulate_Cons Cons.IH)
  also have "\<dots> = map fst m @ filter (\<lambda>k. k \<notin> fst ` set m) (first_seen (map fst (kx # kxs)))"
  proof (cases "fst kx \<in> fst ` set m")
    case True
    then have "insert (fst kx) (fst ` set m) = fst ` set m" by auto
    with True show ?thesis
      by (simp only: keys keys_map_set list.map filter_first_seen_Cons if_True)
  next
    case False
    then show ?thesis
      by (simp only: keys keys_map_set list.map filter_first_seen_Cons if_False append_assoc
          append_Cons append_Nil)
  qed
  finally show ?case .
qed

lemma filter_key_absent:
  "k \<notin> fst ` set kxs \<Longrightarrow> filter (\<lambda>kx. fst kx = k) kxs = []"
  by (auto simp: filter_empty_conv)

lemma accumulate_lookup:
  "map_of (accumulate g z m kxs) k =
     (if k \<in> fst ` set kxs
      then Some (foldl g (case map_of m k of None \<Rightarrow> z | Some v \<Rightarrow> v)
                  (map snd (filter (\<lambda>kx. fst kx = k) kxs)))
      else map_of m k)"
proof (induction kxs arbitrary: m)
  case Nil
  show ?case by (simp add: accumulate_Nil)
next
  case (Cons kx kxs)
  show ?case
    by (simp only: accumulate_Cons Cons.IH map_of_map_set)
       (auto simp: filter_key_absent split: option.splits)
qed

lemma accumulate_distinct:
  "distinct (map fst m) \<Longrightarrow> distinct (map fst (accumulate g z m kxs))"
  by (auto simp: accumulate_keys)

lemma assoc_list_by_keys:
  "distinct (map fst m) \<Longrightarrow> m = map (\<lambda>k. (k, the (map_of m k))) (map fst m)"
proof (induction m)
  case Nil
  show ?case by simp
next
  case (Cons kv m)
  from Cons.prems have d: "distinct (map fst m)" and new: "fst kv \<notin> fst ` set m" by auto
  have "map (\<lambda>k. (k, the (map_of (kv # m) k))) (map fst m) =
      map (\<lambda>k. (k, the (map_of m k))) (map fst m)"
  proof (rule map_cong [OF refl])
    fix x
    assume "x \<in> set (map fst m)"
    with new have "x \<noteq> fst kv" by (force simp: image_iff)
    then show "(x, the (map_of (kv # m) x)) = (x, the (map_of m x))"
      by (cases kv) simp
  qed
  also have "\<dots> = m" using Cons.IH [OF d] by simp
  finally show ?case by (cases kv) simp
qed

lemma accumulate_from_empty:
  "accumulate g z [] kxs =
     map (\<lambda>k. (k, foldl g z (map snd (filter (\<lambda>kx. fst kx = k) kxs)))) (first_seen (map fst kxs))"
proof -
  let ?r = "accumulate g z [] kxs"
  have keys: "map fst ?r = first_seen (map fst kxs)"
    by (simp add: accumulate_keys)
  have "distinct (map fst ?r)" by (simp add: accumulate_distinct)
  then have "?r = map (\<lambda>k. (k, the (map_of ?r k))) (map fst ?r)"
    by (rule assoc_list_by_keys)
  also have "\<dots> = map (\<lambda>k. (k, the (map_of ?r k))) (first_seen (map fst kxs))"
    by (simp only: keys)
  also have "\<dots> = map (\<lambda>k. (k, foldl g z (map snd (filter (\<lambda>kx. fst kx = k) kxs))))
      (first_seen (map fst kxs))"
    by (rule map_cong) (auto simp: accumulate_lookup)
  finally show ?thesis .
qed

lemma statusCount_step:
  "statusCount (process_payment s p) =
     (if status p = ''paid''
        then (statusCount s)\<lparr>paid := num_add (paid (statusCount s)) (amount p)\<rparr>
      else if status p = ''pending''
        then (statusCount s)\<lparr>pending := num_add (pending (statusCount s)) (amount p)\<rparr>
      else if status p = ''overdue''
        then (statusCount s)\<lparr>overdue := num_add (overdue (statusCount s)) (amount p)\<rparr>
      else statusCount s)"
  by (simp add: process_payment_def Let_def split: option.splits)

lemma monthlyMap_step:
  "monthlyMap (process_payment s p) =
     (if paid_with_date p
      then map_set (month_of p)
             ((\<lambda>e a. (num_add (fst e) a, snd e + 1))
                (case map_of (monthlyMap s) (month_of p) of None \<Rightarrow> (0, 0) | Some e \<Rightarrow> e)
                (amount p))
             (monthlyMap s)
      else monthlyMap s)"
  by (auto simp add: process_payment_def Let_def paid_with_date_def month_of_def map_get_def
      split: option.splits)

lemma timelineMap_step:
  "timelineMap (process_payment s p) =
     (if paid_with_date p
      then map_set (day_of p)
             (num_add (case map_of (timelineMap s) (day_of p) of None \<Rightarrow> 0 | Some r \<Rightarrow> r)
                (amount p))
             (timelineMap s)
      else timelineMap s)"
  by (auto simp add: process_payment_def Let_def paid_with_date_def day_of_def map_get_def
      split: option.splits)

lemma statusCount_fold:
  "statusCount (foldl process_payment s ps) =
     \<lparr>paid = foldl num_add (paid (statusCount s))
               (map amount (filter (\<lambda>p. status p = ''paid'') ps)),
      pending = foldl num_add (pending (statusCount s))
                  (map amount (filter (\<lambda>p. status p = ''pending'') ps)),
      overdue = foldl num_add (overdue (statusCount s))
                  (map amount (filter (\<lambda>p. status p = ''overdue'') ps))\<rparr>"
proof (induction ps arbitrary: s)
  case Nil
  show ?case by simp
next
  case (Cons p ps)
  show ?case by (simp add: Cons.IH statusCount_step)
qed

lemma monthlyMap_fold:
  "monthlyMap (foldl process_payment s ps) =
     accumulate (\<lambda>e a. (num_add (fst e) a, snd e + 1)) (0, 0) (monthlyMap s)
       (map (\<lambda>p. (month_of p, amount p)) (filter paid_with_date ps))"
proof (induction ps arbitrary: s)
  case Nil
  show ?case by (simp add: accumulate_Nil)
next
  case (Cons p ps)
  show ?case by (simp add: Cons.IH monthlyMap_step accumulate_Cons)
qed

lemma timelineMap_fold:
  "timelineMap (foldl process_payment s ps) =
     accumulate num_add 0 (timelineMap s)
       (map (\<lambda>p. (day_of p, amount p)) (filter paid_with_date ps))"
proof (induction ps arbitrary: s)
  case Nil
  show ?case by (simp add: accumulate_Nil)
next
  case (Cons p ps)
  show ?case by (simp add: Cons.IH timelineMap_step accumulate_Cons)
qed

lemma foldl_revenue_count:
  "foldl (\<lambda>e a. (num_add (fst e) a, Suc (snd e))) (r, n) xs =
     (foldl num_add r xs, n + length xs)"
  by (induction xs arbitrary: r n) simp_all

lemma values_of_key:
  "map snd (filter (\<lambda>kx. fst kx = k) (map (\<lambda>p. (key p, f p)) ps)) =
     map f (filter (\<lambda>p. key p = k) ps)"
  by (induction ps) simp_all

lemma monthlyMap_closed:
  "monthlyMap (foldl process_payment initial_state ps) =
     map (\<lambda>k. (k, js_sum (map amount (filter (\<lambda>p. month_of p = k) (filter paid_with_date ps))),
                  length (filter (\<lambda>p. month_of p = k) (filter paid_with_date ps))))
       (first_seen (map month_of (filter paid_with_date ps)))"
  by (simp add: monthlyMap_fold initial_state_def accumulate_from_empty values_of_key
      foldl_revenue_count js_sum_def comp_def)

lemma timelineMap_closed:
  "timelineMap (foldl process_payment initial_state ps) =
     map (\<lambda>k. (k, js_sum (map amount (filter (\<lambda>p. day_of p = k) (filter paid_with_date ps)))))
       (first_seen (map day_of (filter paid_with_date ps)))"
  by (simp add: timelineMap_fold initial_state_def accumulate_from_empty values_of_key
      js_sum_def comp_def)

lemma insort_key_map:
  "insort_key f (g x) (map g xs) = map g (insort_key (\<lambda>y. f (g y)) x xs)"
  by (induction xs) simp_all

lemma sort_key_map:
  "sort_key f (map g xs) = map g (sort_key (\<lambda>y. f (g y)) xs)"
  by (induction xs) (simp_all add: insort_key_map)

lemma slice_last_map: "slice_last n (map f xs) = map f (slice_last n xs)"
  by (simp add: slice_last_def drop_map)


lemma month_index_inj: "month_index a = month_index b \<Longrightarrow> a = b"
  by (cases a; cases b) simp_all

lemma month_index_less: "month_index m < 12"
  by (cases m) simp_all

lemma getTime_inj: "inj getTime"
proof (rule injI)
  fix a b :: month_label
  obtain m y where a: "a = (m, y)" by (cases a)
  obtain m' y' where b: "b = (m', y')" by (cases b)
  assume "getTime a = getTime b"
  then have e: "12 * y + month_index m = 12 * y' + month_index m'"
    using a b by (simp add: getTime_def)
  have "month_index m < 12" "month_index m' < 12" by (rule month_index_less)+
  with e have "y = y'" and "month_index m = month_index m'" by arith+
  then show "a = b" using a b by (simp add: month_index_inj)
qed

lemma sort_first_seen:
  "sort_key getTime (first_seen ks) = sort_key getTime (remdups ks)"
proof (rule sort_key_eq_sort_key)
  have "set (first_seen ks) = set (remdups ks)" by simp
  then show "mset (first_seen ks) = mset (remdups ks)"
    by (simp only: set_eq_iff_mset_eq_distinct [OF first_seen_distinct distinct_remdups])
  show "inj_on getTime (set (first_seen ks))"
    using getTime_inj by (rule inj_on_subset) simp
qed


lemma monthly_closed:
  "monthly (processChartData ps) =
     map (\<lambda>k. (k, js_sum (map amount (filter (\<lambda>p. month_of p = k) (filter paid_with_date ps))),
                  length (filter (\<lambda>p. month_of p = k) (filter paid_with_date ps))))
       (slice_last 6 (sort_key getTime (remdups (map month_of (filter paid_with_date ps)))))"
  (is "_ = map ?F _")
proof -
  let ?ks = "first_seen (map month_of (filter paid_with_date ps))"
  have "monthly (processChartData ps) =
      slice_last 6 (sort_key (\<lambda>row. getTime (fst row)) (map ?F ?ks))"
    by (simp add: processChartData_def Let_def monthlyMap_closed comp_def)
  also have "\<dots> = slice_last 6 (map ?F (sort_key getTime ?ks))"
    by (simp add: sort_key_map)
  also have "\<dots> = map ?F (slice_last 6 (sort_key getTime ?ks))"
    by (rule slice_last_map)
  finally show ?thesis by (simp only: sort_first_seen)
qed

lemma timeline_closed:
  "timeline (processChartData ps) =
     map (\<lambda>k. (k, js_sum (map amount (filter (\<lambda>p. day_of p = k) (filter paid_with_date ps)))))
       (slice_last 30 (first_seen (map day_of (filter paid_with_date ps))))"
  by (simp add: processChartData_def Let_def timelineMap_closed slice_last_map)

lemma statusDistribution_closed:
  "statusDistribution (processChartData ps) =
     filter (\<lambda>item. 0 < fst (snd item))
       [(''Paid'', js_sum (map amount (filter (\<lambda>p. status p = ''paid'') ps)),
         ''hsl(var(--success))''),
        (''Pending'', js_sum (map amount (filter (\<lambda>p. status p = ''pending'') ps)),
         ''hsl(var(--warning))''),
        (''Overdue'', js_sum (map amount (filter (\<lambda>p. status p = ''overdue'') ps)),
         ''hsl(var(--destructive))'')]"
  by (simp add: processChartData_def Let_def statusCount_fold initial_state_def js_sum_def)

lemmas eval_simps =
  paid_with_date_def month_of_def day_of_def monthKey_def dateKey_def getTime_def
  slice_last_def js_sum_def num_add_def fl_numeral fl_0


section \<open>Monthly revenue\<close>




section \<open>Daily timeline\<close>

text \<open>
  Claim C9. Take the day labels (month and day of the month) of the paid dates of the
  payments with status paid and a paid date, in the order in which the labels are first
  met. The timeline has one row for each of the last thirty of them, all of them when
  there are at most thirty, in that order: the labels before them are dropped. A row
  carries the label and the sum of the amounts of those payments with that label, added
  from left to right, each addition rounded. The label has no year, so paid dates of
  different years with the same month and day share one row. In the witness, 10 of
  10 March 2023 and 20 of 10 March 2024 make one row of 30; and of 32 labels, the 31
  days of January and 1 February, the rows of 1 and 2 January are dropped.
\<close>

theorem daily_timeline:
  "timeline (processChartData ps) =
     map (\<lambda>k. (k, foldl (\<lambda>sum x. fl (sum + x)) 0
                   (map amount (filter (\<lambda>p. day_of p = k) (filter paid_with_date ps)))))
       (drop (length (first_seen (map day_of (filter paid_with_date ps))) - 30)
          (first_seen (map day_of (filter paid_with_date ps)))) \<and>
   first_seen (map day_of (filter paid_with_date ps)) =
     take (length (first_seen (map day_of (filter paid_with_date ps))) - 30)
       (first_seen (map day_of (filter paid_with_date ps))) @
     map fst (timeline (processChartData ps)) \<and>
   length (timeline (processChartData ps)) =
     min 30 (length (first_seen (map day_of (filter paid_with_date ps)))) \<and>
   distinct (map fst (timeline (processChartData ps))) \<and>
   day_of q = (monthOfYear (the (paid_date q)), dayOfMonth (the (paid_date q)))"
proof -
  let ?L = "first_seen (map day_of (filter paid_with_date ps))"
  have c: "timeline (processChartData ps) =
     map (\<lambda>k. (k, foldl (\<lambda>sum x. fl (sum + x)) 0
                   (map amount (filter (\<lambda>p. day_of p = k) (filter paid_with_date ps)))))
       (drop (length ?L - 30) ?L)"
  proof -
    have "num_add = (\<lambda>sum x. fl (sum + x))" by (simp add: fun_eq_iff num_add_def)
    then show ?thesis
      by (simp add: processChartData_def Let_def timelineMap_closed slice_last_def drop_map
          js_sum_def)
  qed
  have k: "map fst (timeline (processChartData ps)) = drop (length ?L - 30) ?L"
    by (simp add: c comp_def)
  have "?L = take (length ?L - 30) ?L @ map fst (timeline (processChartData ps))"
    by (simp only: k append_take_drop_id)
  moreover have "length (timeline (processChartData ps)) = min 30 (length ?L)"
    using arg_cong [OF k, of length] by simp
  moreover have "distinct (map fst (timeline (processChartData ps)))"
    by (simp only: k) simp
  moreover have "day_of q = (monthOfYear (the (paid_date q)), dayOfMonth (the (paid_date q)))"
    by (simp add: day_of_def dateKey_def)
  ultimately show ?thesis using c by blast
qed

theorem daily_timeline_witness:
  "timeline (processChartData
     [\<lparr>amount = 10, status = ''paid'',
       paid_date = Some \<lparr>fullYear = 2023, monthOfYear = Mar, dayOfMonth = 10\<rparr>\<rparr>,
      \<lparr>amount = 40, status = ''pending'', paid_date = None\<rparr>,
      \<lparr>amount = 5, status = ''paid'',
       paid_date = Some \<lparr>fullYear = 2024, monthOfYear = Feb, dayOfMonth = 1\<rparr>\<rparr>,
      \<lparr>amount = 20, status = ''paid'',
       paid_date = Some \<lparr>fullYear = 2024, monthOfYear = Mar, dayOfMonth = 10\<rparr>\<rparr>]) =
   [((Mar, 10), 30), ((Feb, 1), 5)] \<and>
   timeline (processChartData
     (map (\<lambda>d. \<lparr>amount = of_nat d, status = ''paid'',
                 paid_date = Some \<lparr>fullYear = 2024, monthOfYear = Jan, dayOfMonth = d\<rparr>\<rparr>)
        [1, 2, 3, 4, 5, 6, 7, 8, 9, 10, 11, 12, 13, 14, 15, 16, 17, 18, 19, 20, 21, 22, 23,
         24, 25, 26, 27, 28, 29, 30, 31] @
      [\<lparr>amount = 100, status = ''paid'',
        paid_date = Some \<lparr>fullYear = 2024, monthOfYear = Feb, dayOfMonth = 1\<rparr>\<rparr>,
       \<lparr>amount = 40, status = ''paid'',
        paid_date = Some \<lparr>fullYear = 2025, monthOfYear = Jan, dayOfMonth = 5\<rparr>\<rparr>])) =
   [((Jan, 3), 3), ((Jan, 4), 4), ((Jan, 5), 45), ((Jan, 6), 6), ((Jan, 7), 7),
    ((Jan, 8), 8), ((Jan, 9), 9), ((Jan, 10), 10), ((Jan, 11), 11), ((Jan, 12), 12),
    ((Jan, 13), 13), ((Jan, 14), 14), ((Jan, 15), 15), ((Jan, 16), 16), ((Jan, 17), 17),
    ((Jan, 18), 18), ((Jan, 19), 19), ((Jan, 20), 20), ((Jan, 21), 21), ((Jan, 22), 22),
    ((Jan, 23), 23), ((Jan, 24), 24), ((Jan, 25), 25), ((Jan, 26), 26), ((Jan, 27), 27),
    ((Jan, 28), 28), ((Jan, 29), 29), ((Jan, 30), 30), ((Jan, 31), 31), ((Feb, 1), 100)]"
  (is "?A \<and> ?B")
proof -
  note a = daily_timeline
    [of "[\<lparr>amount = 10, status = ''paid'',
       paid_date = Some \<lparr>fullYear = 2023, monthOfYear = Mar, dayOfMonth = 10\<rparr>\<rparr>,
      \<lparr>amount = 40, status = ''pending'', paid_date = None\<rparr>,
      \<lparr>amount = 5, status = ''paid'',
       paid_date = Some \<lparr>fullYear = 2024, monthOfYear = Feb, dayOfMonth = 1\<rparr>\<rparr>,
      \<lparr>amount = 20, status = ''paid'',
       paid_date = Some \<lparr>fullYear = 2024, monthOfYear = Mar, dayOfMonth = 10\<rparr>\<rparr>]",
     THEN conjunct1]
  note b = daily_timeline
    [of "map (\<lambda>d. \<lparr>amount = of_nat d, status = ''paid'',
                 paid_date = Some \<lparr>fullYear = 2024, monthOfYear = Jan, dayOfMonth = d\<rparr>\<rparr>)
        [1, 2, 3, 4, 5, 6, 7, 8, 9, 10, 11, 12, 13, 14, 15, 16, 17, 18, 19, 20, 21, 22, 23,
         24, 25, 26, 27, 28, 29, 30, 31] @
      [\<lparr>amount = 100, status = ''paid'',
        paid_date = Some \<lparr>fullYear = 2024, monthOfYear = Feb, dayOfMonth = 1\<rparr>\<rparr>,
       \<lparr>amount = 40, status = ''paid'',
        paid_date = Some \<lparr>fullYear = 2025, monthOfYear = Jan, dayOfMonth = 5\<rparr>\<rparr>]",
     THEN conjunct1]
  have ?A and ?B
    by (simp_all add: timeline_closed slice_last_def paid_with_date_def day_of_def
        dateKey_def js_sum_def num_add_def fl_numeral fl_0 fl_1)
  from a have ?A
    by (auto simp add: paid_with_date_def day_of_def dateKey_def fl_numeral fl_0)
  moreover from b have ?B
    by (auto simp add: paid_with_date_def day_of_def dateKey_def fl_numeral fl_0 fl_1)
  ultimately show ?thesis by blast
qed

section \<open>Status distribution\<close>

text \<open>
  Claim C6. The status distribution adds up the amounts of all payments separately for
  paid, pending and overdue, from left to right with each addition rounded, and lists, in
  that order, the statuses whose sum is greater than zero; for whole amounts with a sum
  below \<open>2 ^ 53\<close> each sum is the exact sum. The witness has the scenario of the
  specification, 100.00 paid, 50.00 pending and 25.00 overdue, and six payments in
  another order, three of them paid (137 together, one without paid date) and three
  pending (75 together), where no row is listed for overdue.
\<close>

theorem status_distribution:
  "statusDistribution (processChartData ps) =
     filter (\<lambda>item. 0 < fst (snd item))
       [(''Paid'',
         foldl (\<lambda>sum x. fl (sum + x)) 0 (map amount (filter (\<lambda>p. status p = ''paid'') ps)),
         ''hsl(var(--success))''),
        (''Pending'',
         foldl (\<lambda>sum x. fl (sum + x)) 0 (map amount (filter (\<lambda>p. status p = ''pending'') ps)),
         ''hsl(var(--warning))''),
        (''Overdue'',
         foldl (\<lambda>sum x. fl (sum + x)) 0 (map amount (filter (\<lambda>p. status p = ''overdue'') ps)),
         ''hsl(var(--destructive))'')] \<and>
   ((\<forall>p\<in>set ps. amount p = of_nat (n p)) \<and> sum_list (map n ps) < 2 ^ 53 \<longrightarrow>
      statusDistribution (processChartData ps) =
        filter (\<lambda>item. 0 < fst (snd item))
          [(''Paid'', of_nat (sum_list (map n (filter (\<lambda>p. status p = ''paid'') ps))),
            ''hsl(var(--success))''),
           (''Pending'', of_nat (sum_list (map n (filter (\<lambda>p. status p = ''pending'') ps))),
            ''hsl(var(--warning))''),
           (''Overdue'', of_nat (sum_list (map n (filter (\<lambda>p. status p = ''overdue'') ps))),
            ''hsl(var(--destructive))'')])"
proof (intro conjI impI)
  show "statusDistribution (processChartData ps) =
     filter (\<lambda>item. 0 < fst (snd item))
       [(''Paid'',
         foldl (\<lambda>sum x. fl (sum + x)) 0 (map amount (filter (\<lambda>p. status p = ''paid'') ps)),
         ''hsl(var(--success))''),
        (''Pending'',
         foldl (\<lambda>sum x. fl (sum + x)) 0 (map amount (filter (\<lambda>p. status p = ''pending'') ps)),
         ''hsl(var(--warning))''),
        (''Overdue'',
         foldl (\<lambda>sum x. fl (sum + x)) 0 (map amount (filter (\<lambda>p. status p = ''overdue'') ps)),
         ''hsl(var(--destructive))'')]"
  proof -
    have "num_add = (\<lambda>sum x. fl (sum + x))" by (simp add: fun_eq_iff num_add_def)
    then show ?thesis
      by (simp add: processChartData_def Let_def statusCount_fold initial_state_def)
  qed
next
  assume a: "(\<forall>p\<in>set ps. amount p = of_nat (n p)) \<and> sum_list (map n ps) < 2 ^ 53"
  then have w: "\<forall>p\<in>set ps. amount p = of_nat (n p)" and b: "sum_list (map n ps) < 2 ^ 53"
    by blast+
  show "statusDistribution (processChartData ps) =
        filter (\<lambda>item. 0 < fst (snd item))
          [(''Paid'', of_nat (sum_list (map n (filter (\<lambda>p. status p = ''paid'') ps))),
            ''hsl(var(--success))''),
           (''Pending'', of_nat (sum_list (map n (filter (\<lambda>p. status p = ''pending'') ps))),
            ''hsl(var(--warning))''),
           (''Overdue'', of_nat (sum_list (map n (filter (\<lambda>p. status p = ''overdue'') ps))),
            ''hsl(var(--destructive))'')]"
  proof -
    have "statusDistribution (processChartData ps) =
        filter (\<lambda>item. 0 < fst (snd item))
          [(''Paid'', js_sum (map amount (filter (\<lambda>p. status p = ''paid'') ps)),
            ''hsl(var(--success))''),
           (''Pending'', js_sum (map amount (filter (\<lambda>p. status p = ''pending'') ps)),
            ''hsl(var(--warning))''),
           (''Overdue'', js_sum (map amount (filter (\<lambda>p. status p = ''overdue'') ps)),
            ''hsl(var(--destructive))'')]"
      by (simp add: processChartData_def Let_def statusCount_fold initial_state_def js_sum_def)
    then show ?thesis by (simp only: js_sum_whole [OF w b])
  qed
qed

theorem status_distribution_witness:
  "statusDistribution (processChartData
     [\<lparr>amount = 100, status = ''paid'',
       paid_date = Some \<lparr>fullYear = 2024, monthOfYear = Mar, dayOfMonth = 10\<rparr>\<rparr>,
      \<lparr>amount = 50, status = ''pending'', paid_date = None\<rparr>,
      \<lparr>amount = 25, status = ''overdue'', paid_date = None\<rparr>]) =
   [(''Paid'', 100, ''hsl(var(--success))''),
    (''Pending'', 50, ''hsl(var(--warning))''),
    (''Overdue'', 25, ''hsl(var(--destructive))'')] \<and>
   statusDistribution (processChartData
     [\<lparr>amount = 20, status = ''pending'', paid_date = None\<rparr>,
      \<lparr>amount = 100, status = ''paid'',
       paid_date = Some \<lparr>fullYear = 2024, monthOfYear = Mar, dayOfMonth = 10\<rparr>\<rparr>,
      \<lparr>amount = 50, status = ''pending'', paid_date = None\<rparr>,
      \<lparr>amount = 30, status = ''paid'', paid_date = None\<rparr>,
      \<lparr>amount = 5, status = ''pending'', paid_date = None\<rparr>,
      \<lparr>amount = 7, status = ''paid'',
       paid_date = Some \<lparr>fullYear = 2023, monthOfYear = Dec, dayOfMonth = 1\<rparr>\<rparr>]) =
   [(''Paid'', 137, ''hsl(var(--success))''),
    (''Pending'', 75, ''hsl(var(--warning))'')]"
  (is "?A \<and> ?B")
proof -
  note a = status_distribution
    [of "[\<lparr>amount = 100, status = ''paid'',
       paid_date = Some \<lparr>fullYear = 2024, monthOfYear = Mar, dayOfMonth = 10\<rparr>\<rparr>,
      \<lparr>amount = 50, status = ''pending'', paid_date = None\<rparr>,
      \<lparr>amount = 25, status = ''overdue'', paid_date = None\<rparr>]" "\<lambda>p. 0", THEN conjunct1]
  note b = status_distribution
    [of "[\<lparr>amount = 20, status = ''pending'', paid_date = None\<rparr>,
      \<lparr>amount = 100, status = ''paid'',
       paid_date = Some \<lparr>fullYear = 2024, monthOfYear = Mar, dayOfMonth = 10\<rparr>\<rparr>,
      \<lparr>amount = 50, status = ''pending'', paid_date = None\<rparr>,
      \<lparr>amount = 30, status = ''paid'', paid_date = None\<rparr>,
      \<lparr>amount = 5, status = ''pending'', paid_date = None\<rparr>,
      \<lparr>amount = 7, status = ''paid'',
       paid_date = Some \<lparr>fullYear = 2023, monthOfYear = Dec, dayOfMonth = 1\<rparr>\<rparr>]" "\<lambda>p. 0",
     THEN conjunct1]
  have ?A and ?B
    by (simp_all add: statusDistribution_closed js_sum_def num_add_def fl_numeral fl_0)
  from a have ?A by (auto simp add: fl_numeral fl_0)
  moreover from b have ?B by (auto simp add: fl_numeral fl_0)
  ultimately show ?thesis by blast
qed

section \<open>The payments each series reads\<close>

lemma status_filter_clear:
  "map amount (filter (\<lambda>p. status p = s) (map (\<lambda>p. p\<lparr>paid_date := None\<rparr>) ps)) =
     map amount (filter (\<lambda>p. status p = s) ps)"
  by (induction ps) simp_all


text \<open>
  Claim C5, as stated, has all three series read only the payments with status paid and
  a paid date. The status distribution does not: a pending payment without paid date
  has its row there.
\<close>

theorem time_series_inputs_counterexample:
  "statusDistribution (processChartData
     [\<lparr>amount = 50, status = ''pending'', paid_date = None\<rparr>]) =
     [(''Pending'', 50, ''hsl(var(--warning))'')] \<and>
   statusDistribution (processChartData ([] :: PaymentData list)) = []"
  by (simp add: statusDistribution_closed eval_simps)


text \<open>
  Claim C5, amended. The monthly revenue and the daily timeline are computed from the
  payments with status paid and a paid date alone: removing all other payments changes
  neither. The status distribution is computed from all payments and does not read the
  paid date: clearing every paid date does not change it.
\<close>

theorem time_series_inputs:
  "monthly (processChartData ps) = monthly (processChartData (filter paid_with_date ps)) \<and>
   timeline (processChartData ps) = timeline (processChartData (filter paid_with_date ps)) \<and>
   statusDistribution (processChartData ps) =
     statusDistribution (processChartData (map (\<lambda>p. p\<lparr>paid_date := None\<rparr>) ps))"
  by (simp add: monthly_closed timeline_closed statusDistribution_closed status_filter_clear)

theorem time_series_inputs_witness:
  "monthly (processChartData
     [\<lparr>amount = 100, status = ''paid'',
       paid_date = Some \<lparr>fullYear = 2024, monthOfYear = Mar, dayOfMonth = 10\<rparr>\<rparr>,
      \<lparr>amount = 7, status = ''paid'', paid_date = None\<rparr>,
      \<lparr>amount = 50, status = ''pending'', paid_date = None\<rparr>]) =
     [((Mar, 2024), 100, 1)] \<and>
   timeline (processChartData
     [\<lparr>amount = 100, status = ''paid'',
       paid_date = Some \<lparr>fullYear = 2024, monthOfYear = Mar, dayOfMonth = 10\<rparr>\<rparr>,
      \<lparr>amount = 7, status = ''paid'', paid_date = None\<rparr>,
      \<lparr>amount = 50, status = ''pending'', paid_date = None\<rparr>]) =
     [((Mar, 10), 100)] \<and>
   statusDistribution (processChartData
     [\<lparr>amount = 100, status = ''paid'',
       paid_date = Some \<lparr>fullYear = 2024, monthOfYear = Mar, dayOfMonth = 10\<rparr>\<rparr>,
      \<lparr>amount = 7, status = ''paid'', paid_date = None\<rparr>,
      \<lparr>amount = 50, status = ''pending'', paid_date = None\<rparr>]) =
     [(''Paid'', 107, ''hsl(var(--success))''), (''Pending'', 50, ''hsl(var(--warning))'')]"
  using time_series_inputs
    [of "[\<lparr>amount = 100, status = ''paid'',
       paid_date = Some \<lparr>fullYear = 2024, monthOfYear = Mar, dayOfMonth = 10\<rparr>\<rparr>,
      \<lparr>amount = 7, status = ''paid'', paid_date = None\<rparr>,
      \<lparr>amount = 50, status = ''pending'', paid_date = None\<rparr>]"]
  by (auto simp add: monthly_closed timeline_closed statusDistribution_closed eval_simps)

section \<open>Invoice totals\<close>

lemma tax_of_25_at_10: "num_mul 25 (num_div 10 100) = 5 / 2"
  by code_simp

lemma total_of_25_at_10: "num_add 25 (5 / 2) = 55 / 2"
  by code_simp


text \<open>
  Claim C2, as stated, has the tax amount rounded to cents. The code multiplies and
  keeps the product: one item of 1.00 at a rate of 12.5 percent gives a tax amount of
  0.125, where rounding to cents would give 0.12.
\<close>

theorem invoice_totals_counterexample:
  "taxAmount (calculateTotals
     [\<lparr>item_description = ''A'', quantity = 1, unit_price = 1, item_amount = 1\<rparr>] (25 / 2)) = 1 / 8 \<and>
   round_cents
     (subtotal (calculateTotals
        [\<lparr>item_description = ''A'', quantity = 1, unit_price = 1, item_amount = 1\<rparr>] (25 / 2))
      * (25 / 2) / 100) = 3 / 25"
  by code_simp


text \<open>
  Claim C2, amended. For every sequence of items and every tax rate, the total is the
  subtotal plus the tax amount, the subtotal is the sum of the item amounts, and the tax
  amount is the subtotal times the hundredth of the rate, all in JavaScript's number
  arithmetic and with no rounding to cents; without items the subtotal, the tax amount
  and the total are 0. The witness is the invoice of the specification: items of 20.00
  and 5.00 at 10 percent give 25.00, 2.50 and 27.50.
\<close>

theorem invoice_totals:
  "subtotal (calculateTotals items r) = js_sum (map item_amount items) \<and>
   taxAmount (calculateTotals items r) =
     num_mul (subtotal (calculateTotals items r)) (num_div r 100) \<and>
   total (calculateTotals items r) =
     num_add (subtotal (calculateTotals items r)) (taxAmount (calculateTotals items r)) \<and>
   subtotal (calculateTotals [] r) = 0 \<and>
   taxAmount (calculateTotals [] r) = 0 \<and>
   total (calculateTotals [] r) = 0"
proof -
  have "subtotal (calculateTotals items r) = js_sum (map item_amount items)"
    by (simp add: calculateTotals_def Let_def reduce_eq_js_sum)
  moreover have "taxAmount (calculateTotals items r) =
      num_mul (subtotal (calculateTotals items r)) (num_div r 100)"
    by (simp add: calculateTotals_def Let_def)
  moreover have "total (calculateTotals items r) =
      num_add (subtotal (calculateTotals items r)) (taxAmount (calculateTotals items r))"
    by (simp add: calculateTotals_def Let_def)
  moreover have "subtotal (calculateTotals [] r) = 0" "taxAmount (calculateTotals [] r) = 0"
      "total (calculateTotals [] r) = 0"
    by (simp_all add: calculateTotals_def Let_def num_mul_0 num_add_0_0)
  ultimately show ?thesis by blast
qed

theorem invoice_totals_witness:
  "subtotal (calculateTotals
     [\<lparr>item_description = ''A'', quantity = 2, unit_price = 10, item_amount = 20\<rparr>,
      \<lparr>item_description = ''B'', quantity = 1, unit_price = 5, item_amount = 5\<rparr>] 10) = 25 \<and>
   taxAmount (calculateTotals
     [\<lparr>item_description = ''A'', quantity = 2, unit_price = 10, item_amount = 20\<rparr>,
      \<lparr>item_description = ''B'', quantity = 1, unit_price = 5, item_amount = 5\<rparr>] 10) = 5 / 2 \<and>
   total (calculateTotals
     [\<lparr>item_description = ''A'', quantity = 2, unit_price = 10, item_amount = 20\<rparr>,
      \<lparr>item_description = ''B'', quantity = 1, unit_price = 5, item_amount = 5\<rparr>] 10) = 55 / 2"
  (is "?A \<and> ?B \<and> ?C")
proof -
  note t = invoice_totals
    [of "[\<lparr>item_description = ''A'', quantity = 2, unit_price = 10, item_amount = 20\<rparr>,
          \<lparr>item_description = ''B'', quantity = 1, unit_price = 5, item_amount = 5\<rparr>]" 10]
  from t have a: ?A by (auto simp add: eval_simps)
  from t a have b: ?B by (auto simp add: tax_of_25_at_10)
  from t a b have ?C by (auto simp add: total_of_25_at_10)
  with a b show ?thesis by blast
qed

section \<open>Money arithmetic\<close>

text \<open>
  Claim C7, as stated, fails in each of its parts: 0.1 + 0.2 is not 0.3; half a unit at
  0.25 is 0.125, not the 0.12 that rounding a tie to the even cent would give; and a
  unit price of 19.999 is taken as the item's price and amount.
\<close>

theorem money_arithmetic_counterexample:
  "num_add (dec (1 / 10)) (dec (2 / 10)) \<noteq> dec (3 / 10) \<and>
   calculateItemAmount (1 / 2) (1 / 4) = 1 / 8 \<and>
   round_cents (1 / 2 * (1 / 4)) = 3 / 25 \<and>
   handleItemChange 0 (SetUnitPrice (dec (19999 / 1000)))
     [\<lparr>item_description = ''A'', quantity = 1, unit_price = 0, item_amount = 0\<rparr>] =
     [\<lparr>item_description = ''A'', quantity = 1, unit_price = dec (19999 / 1000),
       item_amount = dec (19999 / 1000)\<rparr>]"
  by code_simp


text \<open>
  Claim C7, amended. Monetary arithmetic is the arithmetic of JavaScript numbers: the
  amount of a line is the binary64 value nearest to quantity times unit price and the tax
  amount the one nearest to subtotal times rate, neither rounded to cents; sums and
  products of whole numbers are exact as long as they stay below \<open>2 ^ 53\<close>; and every
  number is accepted as a unit price and stored as it is, no amount being refused for
  its precision.
\<close>

theorem money_arithmetic:
  "calculateItemAmount q p = fl (q * p) \<and>
   taxAmount (calculateTotals items r) = fl (subtotal (calculateTotals items r) * fl (r / 100)) \<and>
   (a * b < 2 ^ 53 \<longrightarrow> calculateItemAmount (of_nat a) (of_nat b) = of_nat (a * b)) \<and>
   (a + b < 2 ^ 53 \<longrightarrow> num_add (of_nat a) (of_nat b) = of_nat (a + b)) \<and>
   (i < length items \<longrightarrow>
      unit_price (handleItemChange i (SetUnitPrice v) items ! i) = v \<and>
      item_amount (handleItemChange i (SetUnitPrice v) items ! i) =
        calculateItemAmount (quantity (items ! i)) v)"
proof -
  have "calculateItemAmount q p = fl (q * p)"
    by (simp add: calculateItemAmount_def num_mul_def)
  moreover have "taxAmount (calculateTotals items r) =
      fl (subtotal (calculateTotals items r) * fl (r / 100))"
    by (simp add: calculateTotals_def Let_def num_mul_def num_div_def)
  moreover have "a * b < 2 ^ 53 \<longrightarrow> calculateItemAmount (of_nat a) (of_nat b) = of_nat (a * b)"
    using fl_of_nat [of "a * b"] by (simp add: calculateItemAmount_def num_mul_def)
  moreover have "a + b < 2 ^ 53 \<longrightarrow> num_add (of_nat a) (of_nat b) = of_nat (a + b)"
    using fl_of_nat [of "a + b"] by (simp add: num_add_def)
  moreover have "i < length items \<longrightarrow>
      unit_price (handleItemChange i (SetUnitPrice v) items ! i) = v \<and>
      item_amount (handleItemChange i (SetUnitPrice v) items ! i) =
        calculateItemAmount (quantity (items ! i)) v"
    by (simp add: handleItemChange_def Let_def)
  ultimately show ?thesis by blast
qed

theorem money_arithmetic_witness:
  "calculateItemAmount 2 10 = 20 \<and> num_add 2 10 = 12 \<and>
   unit_price (handleItemChange 0 (SetUnitPrice (dec (19999 / 1000)))
     [\<lparr>item_description = ''A'', quantity = 1, unit_price = 0, item_amount = 0\<rparr>] ! 0) =
     dec (19999 / 1000)"
  using money_arithmetic
    [where a = 2 and b = 10 and i = 0 and v = "dec (19999 / 1000)" and q = 0 and p = 0
       and r = 0
       and items = "[\<lparr>item_description = ''A'', quantity = 1, unit_price = 0, item_amount = 0\<rparr>]"]
  by auto

section \<open>Line items\<close>





section \<open>The paid date of a saved payment\<close>

lemma written_values_stamp:
  "status (written_values pf today form doc row) = form_status form \<and>
   paid_date (written_values pf today form doc row) =
     (if form_status form = ''paid'' then Some today else None) \<and>
   id (written_values pf today form doc row) = id row"
  by (simp add: written_values_def)

lemma handleAddPayment_edit:
  assumes "form_amount form \<noteq> []" "client_id = Some c" "c \<noteq> []" "user = Some u"
    "invoiceFile \<noteq> UploadFailed" "status_check (form_status form)"
  shows "handleAddPayment pf today new_id client_id user invoiceFile (Some e) form payments =
     Inr (map (\<lambda>row. if id row = id e
                 then written_values pf today form
                        (case invoiceFile of Uploaded doc \<Rightarrow> doc
                         | _ \<Rightarrow> form_invoice_document_id form) row
                 else row) payments)"
  using assms by (simp add: handleAddPayment_def Let_def)

lemma handleAddPayment_create:
  assumes "form_amount form \<noteq> []" "client_id = Some c" "c \<noteq> []" "user = Some u"
    "invoiceFile \<noteq> UploadFailed" "status_check (form_status form)"
  shows "handleAddPayment pf today new_id client_id user invoiceFile None form payments =
     Inr (payments @
       [written_values pf today form
          (case invoiceFile of Uploaded doc \<Rightarrow> doc | _ \<Rightarrow> form_invoice_document_id form)
          \<lparr>amount = 0, status = [], paid_date = None, id = new_id,
            description = None, due_date = None, invoice_document_id = None\<rparr>])"
  using assms by (simp add: handleAddPayment_def Let_def)


text \<open>
  Claim C3. A save that passes the handler's checks (an amount is entered, the client
  and the user are known, the invoice file, if any, is stored, the status is one the
  table admits) writes the payment, and in the row it writes the paid date is set if and
  only if the status is paid: it is the date of the save when the status is paid and
  null otherwise. An edit writes the rows with the edited payment's id and leaves the
  others as they are; a creation adds one row.
\<close>

theorem paid_date_stamp:
  assumes "form_amount form \<noteq> []" "client_id = Some c" "c \<noteq> []" "user = Some u"
    "invoiceFile \<noteq> UploadFailed" "status_check (form_status form)"
  shows
    "(\<exists>payments'.
        handleAddPayment pf today new_id client_id user invoiceFile (Some e) form payments =
          Inr payments' \<and>
        length payments' = length payments \<and>
        (\<forall>i < length payments.
           (id (payments ! i) \<noteq> id e \<longrightarrow> payments' ! i = payments ! i) \<and>
           (id (payments ! i) = id e \<longrightarrow>
              id (payments' ! i) = id e \<and>
              status (payments' ! i) = form_status form \<and>
              (paid_date (payments' ! i) \<noteq> None) = (status (payments' ! i) = ''paid'') \<and>
              paid_date (payments' ! i) =
                (if status (payments' ! i) = ''paid'' then Some today else None)))) \<and>
     (\<exists>row.
        handleAddPayment pf today new_id client_id user invoiceFile None form payments =
          Inr (payments @ [row]) \<and>
        id row = new_id \<and>
        status row = form_status form \<and>
        (paid_date row \<noteq> None) = (status row = ''paid'') \<and>
        paid_date row = (if status row = ''paid'' then Some today else None))"
proof (rule conjI)
  let ?doc = "case invoiceFile of Uploaded doc \<Rightarrow> doc | _ \<Rightarrow> form_invoice_document_id form"
  let ?w = "written_values pf today form ?doc"
  let ?ps = "map (\<lambda>row. if id row = id e then ?w row else row) payments"
  have "handleAddPayment pf today new_id client_id user invoiceFile (Some e) form payments =
      Inr ?ps"
    using assms by (rule handleAddPayment_edit)
  moreover have "length ?ps = length payments" by simp
  moreover have "\<forall>i < length payments.
           (id (payments ! i) \<noteq> id e \<longrightarrow> ?ps ! i = payments ! i) \<and>
           (id (payments ! i) = id e \<longrightarrow>
              id (?ps ! i) = id e \<and>
              status (?ps ! i) = form_status form \<and>
              (paid_date (?ps ! i) \<noteq> None) = (status (?ps ! i) = ''paid'') \<and>
              paid_date (?ps ! i) = (if status (?ps ! i) = ''paid'' then Some today else None))"
    by (simp add: written_values_stamp)
  ultimately show "\<exists>payments'.
        handleAddPayment pf today new_id client_id user invoiceFile (Some e) form payments =
          Inr payments' \<and>
        length payments' = length payments \<and>
        (\<forall>i < length payments.
           (id (payments ! i) \<noteq> id e \<longrightarrow> payments' ! i = payments ! i) \<and>
           (id (payments ! i) = id e \<longrightarrow>
              id (payments' ! i) = id e \<and>
              status (payments' ! i) = form_status form \<and>
              (paid_date (payments' ! i) \<noteq> None) = (status (payments' ! i) = ''paid'') \<and>
              paid_date (payments' ! i) =
                (if status (payments' ! i) = ''paid'' then Some today else None)))"
    by blast
next
  let ?doc = "case invoiceFile of Uploaded doc \<Rightarrow> doc | _ \<Rightarrow> form_invoice_document_id form"
  let ?row = "written_values pf today form ?doc
          \<lparr>amount = 0, status = [], paid_date = None, id = new_id,
            description = None, due_date = None, invoice_document_id = None\<rparr>"
  have "handleAddPayment pf today new_id client_id user invoiceFile None form payments =
      Inr (payments @ [?row])"
    using assms by (rule handleAddPayment_create)
  moreover have "id ?row = new_id \<and> status ?row = form_status form \<and>
      (paid_date ?row \<noteq> None) = (status ?row = ''paid'') \<and>
      paid_date ?row = (if status ?row = ''paid'' then Some today else None)"
    by (simp add: written_values_stamp)
  ultimately show "\<exists>row.
        handleAddPayment pf today new_id client_id user invoiceFile None form payments =
          Inr (payments @ [row]) \<and>
        id row = new_id \<and>
        status row = form_status form \<and>
        (paid_date row \<noteq> None) = (status row = ''paid'') \<and>
        paid_date row = (if status row = ''paid'' then Some today else None)"
    by blast
qed

theorem paid_date_stamp_witness:
  "(\<exists>payments'.
      handleAddPayment (\<lambda>text. 100)
        \<lparr>fullYear = 2024, monthOfYear = Mar, dayOfMonth = 10\<rparr> ''p2'' (Some ''c1'') (Some ''u1'')
        NoFile
        (Some \<lparr>amount = 100, status = ''pending'', paid_date = None, id = ''p1'',
                description = None, due_date = None, invoice_document_id = None\<rparr>)
        \<lparr>form_amount = ''100'', form_status = ''paid'', form_description = [],
          form_due_date = [], form_invoice_document_id = []\<rparr>
        [\<lparr>amount = 100, status = ''pending'', paid_date = None, id = ''p1'',
          description = None, due_date = None, invoice_document_id = None\<rparr>] = Inr payments' \<and>
      status (payments' ! 0) = ''paid'' \<and>
      paid_date (payments' ! 0) = Some \<lparr>fullYear = 2024, monthOfYear = Mar, dayOfMonth = 10\<rparr>) \<and>
   (\<exists>payments'.
      handleAddPayment (\<lambda>text. 100)
        \<lparr>fullYear = 2024, monthOfYear = Mar, dayOfMonth = 12\<rparr> ''p2'' (Some ''c1'') (Some ''u1'')
        NoFile
        (Some \<lparr>amount = 100, status = ''paid'',
                paid_date = Some \<lparr>fullYear = 2024, monthOfYear = Mar, dayOfMonth = 10\<rparr>,
                id = ''p1'', description = None, due_date = None,
                invoice_document_id = None\<rparr>)
        \<lparr>form_amount = ''100'', form_status = ''pending'', form_description = [],
          form_due_date = [], form_invoice_document_id = []\<rparr>
        [\<lparr>amount = 100, status = ''paid'',
          paid_date = Some \<lparr>fullYear = 2024, monthOfYear = Mar, dayOfMonth = 10\<rparr>,
          id = ''p1'', description = None, due_date = None,
          invoice_document_id = None\<rparr>] = Inr payments' \<and>
      status (payments' ! 0) = ''pending'' \<and>
      paid_date (payments' ! 0) = None)"
proof (rule conjI)
  have c: "status_check ''paid''" "status_check ''pending''" by (simp_all add: status_check_def)
  note t = paid_date_stamp
    [where form = "\<lparr>form_amount = ''100'', form_status = ''paid'', form_description = [],
          form_due_date = [], form_invoice_document_id = []\<rparr>"
       and client_id = "Some ''c1''" and c = "''c1''" and user = "Some ''u1''" and u = "''u1''"
       and invoiceFile = NoFile and pf = "\<lambda>text. 100"
       and today = "\<lparr>fullYear = 2024, monthOfYear = Mar, dayOfMonth = 10\<rparr>"
       and new_id = "''p2''"
       and e = "\<lparr>amount = 100, status = ''pending'', paid_date = None, id = ''p1'',
                description = None, due_date = None, invoice_document_id = None\<rparr>"
       and payments = "[\<lparr>amount = 100, status = ''pending'', paid_date = None, id = ''p1'',
          description = None, due_date = None, invoice_document_id = None\<rparr>]",
       THEN conjunct1]
  from t c show "\<exists>payments'.
      handleAddPayment (\<lambda>text. 100)
        \<lparr>fullYear = 2024, monthOfYear = Mar, dayOfMonth = 10\<rparr> ''p2'' (Some ''c1'') (Some ''u1'')
        NoFile
        (Some \<lparr>amount = 100, status = ''pending'', paid_date = None, id = ''p1'',
                description = None, due_date = None, invoice_document_id = None\<rparr>)
        \<lparr>form_amount = ''100'', form_status = ''paid'', form_description = [],
          form_due_date = [], form_invoice_document_id = []\<rparr>
        [\<lparr>amount = 100, status = ''pending'', paid_date = None, id = ''p1'',
          description = None, due_date = None, invoice_document_id = None\<rparr>] = Inr payments' \<and>
      status (payments' ! 0) = ''paid'' \<and>
      paid_date (payments' ! 0) = Some \<lparr>fullYear = 2024, monthOfYear = Mar, dayOfMonth = 10\<rparr>"
    by fastforce
  note s = paid_date_stamp
    [where form = "\<lparr>form_amount = ''100'', form_status = ''pending'', form_description = [],
          form_due_date = [], form_invoice_document_id = []\<rparr>"
       and client_id = "Some ''c1''" and c = "''c1''" and user = "Some ''u1''" and u = "''u1''"
       and invoiceFile = NoFile and pf = "\<lambda>text. 100"
       and today = "\<lparr>fullYear = 2024, monthOfYear = Mar, dayOfMonth = 12\<rparr>"
       and new_id = "''p2''"
       and e = "\<lparr>amount = 100, status = ''paid'',
                paid_date = Some \<lparr>fullYear = 2024, monthOfYear = Mar, dayOfMonth = 10\<rparr>,
                id = ''p1'', description = None, due_date = None,
                invoice_document_id = None\<rparr>"
       and payments = "[\<lparr>amount = 100, status = ''paid'',
          paid_date = Some \<lparr>fullYear = 2024, monthOfYear = Mar, dayOfMonth = 10\<rparr>,
          id = ''p1'', description = None, due_date = None,
          invoice_document_id = None\<rparr>]",
       THEN conjunct1]
  from s c show "\<exists>payments'.
      handleAddPayment (\<lambda>text. 100)
        \<lparr>fullYear = 2024, monthOfYear = Mar, dayOfMonth = 12\<rparr> ''p2'' (Some ''c1'') (Some ''u1'')
        NoFile
        (Some \<lparr>amount = 100, status = ''paid'',
                paid_date = Some \<lparr>fullYear = 2024, monthOfYear = Mar, dayOfMonth = 10\<rparr>,
                id = ''p1'', description = None, due_date = None,
                invoice_document_id = None\<rparr>)
        \<lparr>form_amount = ''100'', form_status = ''pending'', form_description = [],
          form_due_date = [], form_invoice_document_id = []\<rparr>
        [\<lparr>amount = 100, status = ''paid'',
          paid_date = Some \<lparr>fullYear = 2024, monthOfYear = Mar, dayOfMonth = 10\<rparr>,
          id = ''p1'', description = None, due_date = None,
          invoice_document_id = None\<rparr>] = Inr payments' \<and>
      status (payments' ! 0) = ''pending'' \<and>
      paid_date (payments' ! 0) = None"
    by fastforce
qed


section \<open>Expense totals\<close>

lemma totalExpenses_sum: "totalExpenses es = js_sum (map expense_amount es)"
  unfolding totalExpenses_def by (rule reduce_eq_js_sum)

lemma monthlyExpenses_east_of_utc:
  assumes "0 \<le> tz"
  shows "monthlyExpenses tz now es =
     js_sum (map expense_amount
       (filter (\<lambda>e. monthOfYear (expense_date e) = monthOfYear now \<and>
                    fullYear (expense_date e) = fullYear now) es))"
proof -
  have "filter (\<lambda>expense.
          (let expenseDate = new_Date tz (expense_date expense)
           in month_index (monthOfYear expenseDate) = month_index (monthOfYear now) \<and>
              fullYear expenseDate = fullYear now)) es =
        filter (\<lambda>e. monthOfYear (expense_date e) = monthOfYear now \<and>
                    fullYear (expense_date e) = fullYear now) es"
    using assms by (intro filter_cong refl) (auto simp: new_Date_def Let_def dest: month_index_inj)
  then show ?thesis
    by (simp add: monthlyExpenses_def Let_def reduce_eq_js_sum)
qed


text \<open>
  Claim C10 holds of the total of all expenses, and of the month's figure in a time zone
  at or east of UTC (\<open>monthlyExpenses_east_of_utc\<close>). West of UTC the code departs from
  it: \<^verbatim>\<open>new Date(expense.date)\<close> is midnight in UTC, which is still the evening before in
  local time, so the month and year that \<^verbatim>\<open>getMonth\<close> and \<^verbatim>\<open>getFullYear\<close> return for an
  expense of the first day of a month are those of the day before. Five hours west of UTC,
  in March 2024, an expense of 100 of 1 March is left out of the month's figure and an
  expense of 7 of 1 April is counted: the figure is 7, where an hour east of UTC it is 100.
\<close>

theorem monthly_expenses_west_of_utc:
  "monthlyExpenses (- 300) \<lparr>fullYear = 2024, monthOfYear = Mar, dayOfMonth = 15\<rparr>
     [\<lparr>expense_amount = 100,
       expense_date = \<lparr>fullYear = 2024, monthOfYear = Mar, dayOfMonth = 1\<rparr>\<rparr>,
      \<lparr>expense_amount = 7,
       expense_date = \<lparr>fullYear = 2024, monthOfYear = Apr, dayOfMonth = 1\<rparr>\<rparr>] = 7 \<and>
   monthlyExpenses 60 \<lparr>fullYear = 2024, monthOfYear = Mar, dayOfMonth = 15\<rparr>
     [\<lparr>expense_amount = 100,
       expense_date = \<lparr>fullYear = 2024, monthOfYear = Mar, dayOfMonth = 1\<rparr>\<rparr>,
      \<lparr>expense_amount = 7,
       expense_date = \<lparr>fullYear = 2024, monthOfYear = Apr, dayOfMonth = 1\<rparr>\<rparr>] = 100 \<and>
   totalExpenses
     [\<lparr>expense_amount = 100,
       expense_date = \<lparr>fullYear = 2024, monthOfYear = Mar, dayOfMonth = 1\<rparr>\<rparr>,
      \<lparr>expense_amount = 7,
       expense_date = \<lparr>fullYear = 2024, monthOfYear = Apr, dayOfMonth = 1\<rparr>\<rparr>] = 107"
  by (simp add: monthlyExpenses_def totalExpenses_def new_Date_def prev_day_def Let_def
      eval_simps)

end
